theory Spec2Isabelle
  imports Main
begin

section \<open>Strings as the program sees them\<close>

text \<open>
  The program is Python. A query is a Python \<^verbatim>\<open>str\<close>; it is modelled as a \<^typ>\<open>string\<close> whose
  characters are read as ASCII code points, the alphabet of the SQL text that the tools
  receive. On that alphabet the character classes below are the ones Python uses:
  \<^verbatim>\<open>str.strip()\<close> and \<^verbatim>\<open>\s\<close> remove the characters for which \<^verbatim>\<open>str.isspace\<close> holds
  (codes 9 to 13, 28 to 31 and 32), \<^verbatim>\<open>\w\<close> is a letter, a digit or the underscore, and
  \<^verbatim>\<open>str.upper\<close> and \<^verbatim>\<open>re.IGNORECASE\<close> fold the 26 letters. Characters with a code above 127
  are outside the modelled alphabet; the functions leave them alone and treat them as
  neither blank nor word characters.
\<close>

definition is_space :: "char \<Rightarrow> bool" where
  "is_space c = (let n = (of_char c :: nat) in (9 \<le> n \<and> n \<le> 13) \<or> (28 \<le> n \<and> n \<le> 32))"

definition is_upper :: "char \<Rightarrow> bool" where
  "is_upper c = (let n = (of_char c :: nat) in 65 \<le> n \<and> n \<le> 90)"

definition is_lower :: "char \<Rightarrow> bool" where
  "is_lower c = (let n = (of_char c :: nat) in 97 \<le> n \<and> n \<le> 122)"

definition is_digit :: "char \<Rightarrow> bool" where
  "is_digit c = (let n = (of_char c :: nat) in 48 \<le> n \<and> n \<le> 57)"

definition is_word :: "char \<Rightarrow> bool" where
  "is_word c = (is_upper c \<or> is_lower c \<or> is_digit c \<or> c = CHR ''_'')"

definition upper_char :: "char \<Rightarrow> char" where
  "upper_char c = (if is_lower c then char_of ((of_char c :: nat) - 32) else c)"

definition lower_char :: "char \<Rightarrow> char" where
  "lower_char c = (if is_upper c then char_of ((of_char c :: nat) + 32) else c)"

text \<open>\<^verbatim>\<open>s.upper()\<close>, \<^verbatim>\<open>s.strip()\<close> and \<^verbatim>\<open>s.startswith(p)\<close>.\<close>

definition upper :: "string \<Rightarrow> string" where
  "upper s = map upper_char s"

definition lstrip :: "string \<Rightarrow> string" where
  "lstrip s = dropWhile is_space s"

definition rstrip :: "string \<Rightarrow> string" where
  "rstrip s = rev (dropWhile is_space (rev s))"

definition strip :: "string \<Rightarrow> string" where
  "strip s = rstrip (lstrip s)"

definition startswith :: "string \<Rightarrow> string \<Rightarrow> bool" where
  "startswith s p = (take (length p) s = p)"

section \<open>The keyword scan of \<^verbatim>\<open>NokchaAgent.query_sql\<close>\<close>

text \<open>
  For each keyword the tool builds the pattern
  \<^verbatim>\<open>(?:\W|^) + re.escape(keyword) + (?:\W|$)\<close> and calls \<^verbatim>\<open>re.search\<close> with
  \<^verbatim>\<open>re.IGNORECASE\<close> on the stripped query. The keywords are letters only, so
  \<^verbatim>\<open>re.escape\<close> returns them unchanged. The three parts of the pattern are the three
  functions below; \<open>re_search\<close> tries every start position, as \<^verbatim>\<open>re.search\<close> does.
\<close>

text \<open>The literal, compared without case; the result is the text after the match.\<close>

fun match_literal :: "string \<Rightarrow> string \<Rightarrow> string option" where
  "match_literal [] s = Some s"
| "match_literal (k # ks) [] = None"
| "match_literal (k # ks) (c # cs) =
     (if lower_char k = lower_char c then match_literal ks cs else None)"

text \<open>
  The closing group \<^verbatim>\<open>(?:\W|$)\<close>: a character that is not a word character, or the end
  of the text, which \<^verbatim>\<open>$\<close> also finds just before a final newline.
\<close>

fun match_end :: "string \<Rightarrow> bool" where
  "match_end [] = True"
| "match_end (c # cs) = (\<not> is_word c \<or> (c = CHR 0x0A \<and> cs = []))"

definition match_rest :: "string \<Rightarrow> string \<Rightarrow> bool" where
  "match_rest kw s = (case match_literal kw s of None \<Rightarrow> False | Some r \<Rightarrow> match_end r)"

text \<open>
  The opening group \<^verbatim>\<open>(?:\W|^)\<close> at every position: \<open>at_start\<close> says whether the
  text is still the whole subject, where \<^verbatim>\<open>^\<close> matches.
\<close>

fun re_search_from :: "bool \<Rightarrow> string \<Rightarrow> string \<Rightarrow> bool" where
  "re_search_from at_start kw [] = (at_start \<and> match_rest kw [])"
| "re_search_from at_start kw (c # cs) =
     ((\<not> is_word c \<and> match_rest kw cs) \<or> (at_start \<and> match_rest kw (c # cs))
      \<or> re_search_from False kw cs)"

definition re_search :: "string \<Rightarrow> string \<Rightarrow> bool" where
  "re_search kw s = re_search_from True kw s"

definition forbidden_keywords :: "string list" where
  "forbidden_keywords =
     [''UPDATE'', ''DELETE'', ''INSERT'', ''DROP'', ''ALTER'', ''CREATE'', ''TRUNCATE'']"

text \<open>The \<^verbatim>\<open>for keyword in forbidden_keywords\<close> loop: the first keyword found, if any.\<close>

fun first_forbidden :: "string list \<Rightarrow> string \<Rightarrow> string option" where
  "first_forbidden [] q = None"
| "first_forbidden (k # ks) q = (if re_search k q then Some k else first_forbidden ks q)"

definition disallowed_message :: "string \<Rightarrow> string" where
  "disallowed_message keyword =
     ''Disallowed operation: '' @ [CHR 0x27] @ upper keyword @ [CHR 0x27]
       @ '' queries are not permitted. Only '' @ [CHR 0x27] @ ''SELECT'' @ [CHR 0x27]
       @ '' is allowed.''"

section \<open>The tabular store: \<^verbatim>\<open>SQLiteDBManager.execute_read_query\<close>\<close>

text \<open>
  Exceptions are values. \<^verbatim>\<open>sqlite3.Error\<close> is the class that the store catches;
  \<open>Other_Exception\<close> stands for any exception that is neither a \<^verbatim>\<open>ValueError\<close> nor a
  \<^verbatim>\<open>sqlite3.Error\<close> (the argument is the class name or message).
\<close>

datatype py_exception =
    ValueError string
  | Sqlite3_Error string
  | AttributeError string
  | Other_Exception string

fun is_sqlite3_error :: "py_exception \<Rightarrow> bool" where
  "is_sqlite3_error (Sqlite3_Error m) = True"
| "is_sqlite3_error e = False"

text \<open>
  The SQLite file is the environment of the store. \<open>connect_failure\<close> is the exception that
  \<^verbatim>\<open>sqlite3.connect\<close> raises, if it raises; \<open>run_statement\<close> is what
  \<^verbatim>\<open>cursor.execute(query)\<close> followed by \<^verbatim>\<open>cursor.fetchall()\<close> does with a statement:
  the rows, each a list of column name and value, or the exception raised.
\<close>

datatype 'v cursor_outcome = Fetched "(string \<times> 'v) list list" | Raised py_exception

record 'v database =
  connect_failure :: "py_exception option"
  run_statement :: "string \<Rightarrow> 'v cursor_outcome"

text \<open>What the store does to the database, in order, over the life of the process.\<close>

datatype db_event = Connect | Execute string | Close

fun open_connections :: "db_event list \<Rightarrow> int" where
  "open_connections [] = 0"
| "open_connections (Connect # es) = open_connections es + 1"
| "open_connections (Close # es) = open_connections es - 1"
| "open_connections (Execute q # es) = open_connections es"

text \<open>
  \<^verbatim>\<open>dict(row)\<close> on a \<^verbatim>\<open>sqlite3.Row\<close>: a dictionary from column name to value, in which
  a repeated column name keeps the value of its first column.
\<close>

definition dict_of_row :: "(string \<times> 'v) list \<Rightarrow> (string \<rightharpoonup> 'v)" where
  "dict_of_row row = map_of row"

definition only_select_message :: string where
  "only_select_message = ''Only SELECT queries are allowed for read operations.''"

text \<open>
  \<^verbatim>\<open>execute_read_query\<close>, with its \<^verbatim>\<open>try\<close>, \<^verbatim>\<open>except sqlite3.Error\<close> and
  \<^verbatim>\<open>finally\<close>. The connection is opened inside the \<^verbatim>\<open>try\<close>, so a
  \<^verbatim>\<open>sqlite3.Error\<close> raised by \<^verbatim>\<open>sqlite3.connect\<close> is caught too; \<open>conn\<close> is then still
  \<^verbatim>\<open>None\<close> and \<^verbatim>\<open>finally\<close> closes nothing. The \<^verbatim>\<open>ValueError\<close> of the read-only check is
  not a \<^verbatim>\<open>sqlite3.Error\<close>: it leaves through \<^verbatim>\<open>finally\<close>, which closes the connection.
  The result is the value returned or the exception raised, with the events added to the
  trace. Logging is left out: it changes neither.
\<close>

definition execute_read_query ::
  "'v database \<Rightarrow> db_event list \<Rightarrow> string
     \<Rightarrow> (py_exception + (string \<rightharpoonup> 'v) list) \<times> db_event list" where
  "execute_read_query db trace q =
     (case connect_failure db of
        Some e \<Rightarrow> (if is_sqlite3_error e then Inr [] else Inl e, trace)
      | None \<Rightarrow>
          if \<not> startswith (upper (strip q)) ''SELECT''
          then (Inl (ValueError only_select_message), trace @ [Connect, Close])
          else (case run_statement db q of
                  Fetched rows \<Rightarrow>
                    (Inr (map dict_of_row rows), trace @ [Connect, Execute q, Close])
                | Raised e \<Rightarrow>
                    (if is_sqlite3_error e then Inr [] else Inl e,
                     trace @ [Connect, Execute q, Close])))"

section \<open>The knowledge retriever: \<^verbatim>\<open>KnowledgeBaseManager\<close>\<close>

text \<open>
  FAISS and the embedding model are libraries outside the repository. The index is modelled
  by the documents it holds, and the similarity search by its contract: the \<open>k\<close> stored
  documents most relevant to the query, each with its score, best first. The relevance
  score is a parameter \<open>relevance\<close> of any linearly ordered type. The attribute
  \<^verbatim>\<open>self.vectorstore\<close> may be unset, which is \<open>None\<close>.
\<close>

record document =
  page_content :: string
  metadata :: "(string \<times> string) list"

record 's knowledge_base =
  vectorstore :: "document list option"
  relevance :: "string \<Rightarrow> document \<Rightarrow> 's"

definition similarity_search_with_relevance_scores ::
  "(string \<Rightarrow> document \<Rightarrow> 's::linorder) \<Rightarrow> document list \<Rightarrow> string \<Rightarrow> nat
     \<Rightarrow> (document \<times> 's) list" where
  "similarity_search_with_relevance_scores rel docs q k =
     take k (rev (sort_key snd (map (\<lambda>d. (d, rel q d)) docs)))"

text \<open>
  \<^verbatim>\<open>retrieve(query, top_k, fetch_k)\<close>: the body reads \<^verbatim>\<open>self.vectorstore\<close>, which raises
  \<^verbatim>\<open>AttributeError\<close> when the attribute was never set, and returns the search result for
  \<^verbatim>\<open>k=fetch_k\<close> as it is.
\<close>

definition retrieve ::
  "('s::linorder) knowledge_base \<Rightarrow> string \<Rightarrow> nat \<Rightarrow> nat
     \<Rightarrow> py_exception + (document \<times> 's) list" where
  "retrieve kb q top_k fetch_k =
     (case vectorstore kb of
        None \<Rightarrow> Inl (AttributeError ''vectorstore'')
      | Some docs \<Rightarrow> Inr (similarity_search_with_relevance_scores (relevance kb) docs q fetch_k))"

text \<open>
  Building the index. \<^verbatim>\<open>add_text_data\<close> splits a text into documents (\<open>split\<close>, the
  text splitter, is a parameter) and adds them to the index, or creates the index from
  them when there is none yet; \<^verbatim>\<open>FAISS.from_documents\<close> raises on an empty list.
\<close>

definition add_text_data ::
  "(string \<Rightarrow> document list) \<Rightarrow> document list option \<Rightarrow> string
     \<Rightarrow> py_exception + document list option" where
  "add_text_data split vs text =
     (let docs = split text in
      case vs of
        Some stored \<Rightarrow> Inr (Some (stored @ docs))
      | None \<Rightarrow> if docs = [] then Inl (Other_Exception ''IndexError'') else Inr (Some docs))"

fun add_chunks ::
  "(string \<Rightarrow> document list) \<Rightarrow> document list option \<Rightarrow> string list
     \<Rightarrow> py_exception + document list option" where
  "add_chunks split vs [] = Inr vs"
| "add_chunks split vs (chunk # chunks) =
     (case add_text_data split vs chunk of
        Inl e \<Rightarrow> Inl e
      | Inr vs' \<Rightarrow> add_chunks split vs' chunks)"

definition dummy_doc :: document where
  "dummy_doc = \<lparr>page_content = ''init'', metadata = [(''id'', ''dummy'')]\<rparr>"

text \<open>
  \<^verbatim>\<open>_initialize_from_pdfs\<close>: \<open>pdf_files\<close> are the files found in the data folder and
  \<open>chunk_pdf\<close> the chunks that \<^verbatim>\<open>_chunk_pdf\<close> makes of a file. With no file the method
  creates what its comment calls an empty index: an index holding one placeholder document.
  Otherwise every chunk of every file is added, and \<^verbatim>\<open>self.vectorstore.save_local\<close> reads
  the attribute.
\<close>

definition initialize_from_pdfs ::
  "(string \<Rightarrow> string list) \<Rightarrow> (string \<Rightarrow> document list) \<Rightarrow> string list
     \<Rightarrow> py_exception + document list option" where
  "initialize_from_pdfs chunk_pdf split pdf_files =
     (if pdf_files = [] then Inr (Some [dummy_doc])
      else (case add_chunks split None (concat (map chunk_pdf pdf_files)) of
              Inl e \<Rightarrow> Inl e
            | Inr None \<Rightarrow> Inl (AttributeError ''vectorstore'')
            | Inr (Some docs) \<Rightarrow> Inr (Some docs)))"

text \<open>
  \<^verbatim>\<open>KnowledgeBaseManager.__init__\<close>: when the index folder exists and is not empty the
  index is loaded from it (\<open>on_disk\<close> is then the documents of the saved index), otherwise
  it is built from the PDF files.
\<close>

definition init_knowledge_base ::
  "document list option \<Rightarrow> (string \<Rightarrow> string list) \<Rightarrow> (string \<Rightarrow> document list)
     \<Rightarrow> string list \<Rightarrow> py_exception + document list option" where
  "init_knowledge_base on_disk chunk_pdf split pdf_files =
     (case on_disk of
        Some docs \<Rightarrow> Inr (Some docs)
      | None \<Rightarrow> initialize_from_pdfs chunk_pdf split pdf_files)"

section \<open>The agent: \<^verbatim>\<open>NokchaAgent\<close>\<close>

record tool_call =
  tool_name :: string
  query :: string
  status :: string

text \<open>
  The mutable state of the agent object: the ledger \<^verbatim>\<open>self.tool_calls\<close> and the trace of
  what its store has done to the database.
\<close>

record agent_state =
  tool_calls :: "tool_call list"
  db_trace :: "db_event list"

definition query_vector_db ::
  "('s::linorder) knowledge_base \<Rightarrow> agent_state \<Rightarrow> string
     \<Rightarrow> (py_exception + (document \<times> 's) list) \<times> agent_state" where
  "query_vector_db kb st q =
     (case retrieve kb q 5 20 of
        Inl e \<Rightarrow> (Inl e, st)
      | Inr result \<Rightarrow>
          (Inr result,
           st\<lparr>tool_calls := tool_calls st
                 @ [\<lparr>tool_name = ''query_vector_db'', query = q, status = ''success''\<rparr>]\<rparr>))"

text \<open>
  \<^verbatim>\<open>query_sql\<close>: the keyword scan on the stripped query raises \<^verbatim>\<open>ValueError\<close> at the first
  keyword found. The check that the query starts with \<^verbatim>\<open>SELECT\<close> only logs a warning and
  is left out with the other logging. The store then gets the query as it was passed; the
  ledger entry is appended after the store has returned, and \<^verbatim>\<open>except Exception\<close> logs and
  raises the exception again.
\<close>

definition query_sql ::
  "'v database \<Rightarrow> agent_state \<Rightarrow> string
     \<Rightarrow> (py_exception + (string \<rightharpoonup> 'v) list) \<times> agent_state" where
  "query_sql db st q =
     (let normalized_query = strip q in
      case first_forbidden forbidden_keywords normalized_query of
        Some keyword \<Rightarrow> (Inl (ValueError (disallowed_message keyword)), st)
      | None \<Rightarrow>
          (case execute_read_query db (db_trace st) q of
             (Inl e, trace) \<Rightarrow> (Inl e, st\<lparr>db_trace := trace\<rparr>)
           | (Inr result, trace) \<Rightarrow>
               (Inr result,
                st\<lparr>db_trace := trace,
                   tool_calls := tool_calls st
                     @ [\<lparr>tool_name = ''query_sql'', query = q, status = ''success''\<rparr>]\<rparr>)))"

text \<open>
  A run. The reasoning loop belongs to a library and to a language model; of a run the
  model keeps what reaches the agent object: the tool calls made, in order, the text chunks
  streamed, and how the loop ended, with a final answer or with an exception. A tool's
  result or exception goes back to the loop and does not change the state further.
\<close>

datatype tool_request = Vector_Query string | Sql_Query string

record agent_run =
  requests :: "tool_request list"
  chunks :: "string list"
  outcome :: "py_exception + string"

fun call_tool ::
  "'v database \<Rightarrow> ('s::linorder) knowledge_base \<Rightarrow> agent_state \<Rightarrow> tool_request
     \<Rightarrow> agent_state" where
  "call_tool db kb st (Vector_Query q) = snd (query_vector_db kb st q)"
| "call_tool db kb st (Sql_Query q) = snd (query_sql db st q)"

fun run_tools ::
  "'v database \<Rightarrow> ('s::linorder) knowledge_base \<Rightarrow> agent_state \<Rightarrow> tool_request list
     \<Rightarrow> agent_state" where
  "run_tools db kb st [] = st"
| "run_tools db kb st (r # rs) = run_tools db kb (call_tool db kb st r) rs"

text \<open>
  \<^verbatim>\<open>aeval\<close> and \<^verbatim>\<open>ainvoke\<close> both begin with \<^verbatim>\<open>self.tool_calls = []\<close>. \<^verbatim>\<open>aeval\<close>
  returns the final answer with the ledger, unless the loop raised; \<^verbatim>\<open>ainvoke\<close> yields
  each chunk with a newline, and then raises if the loop raised.
\<close>

definition aeval ::
  "'v database \<Rightarrow> ('s::linorder) knowledge_base \<Rightarrow> agent_state \<Rightarrow> agent_run
     \<Rightarrow> (py_exception + string \<times> tool_call list) \<times> agent_state" where
  "aeval db kb st run =
     (let st0 = st\<lparr>tool_calls := []\<rparr>;
          st1 = run_tools db kb st0 (requests run)
      in (case outcome run of
            Inl e \<Rightarrow> (Inl e, st1)
          | Inr final_msg \<Rightarrow> (Inr (final_msg, tool_calls st1), st1)))"

definition ainvoke ::
  "'v database \<Rightarrow> ('s::linorder) knowledge_base \<Rightarrow> agent_state \<Rightarrow> agent_run
     \<Rightarrow> (string list \<times> py_exception option) \<times> agent_state" where
  "ainvoke db kb st run =
     (let st0 = st\<lparr>tool_calls := []\<rparr>;
          st1 = run_tools db kb st0 (requests run)
      in ((map (\<lambda>c. c @ [CHR 0x0A]) (chunks run),
           case outcome run of Inl e \<Rightarrow> Some e | Inr final_msg \<Rightarrow> None), st1))"

section \<open>Notions of the specification and example data\<close>

text \<open>
  The specification's notion of a keyword that appears as a standalone token: the query
  holds the keyword, in any case, with a character that is not a word character or an edge
  of the query on each side.
\<close>

definition standalone_token :: "string \<Rightarrow> string \<Rightarrow> bool" where
  "standalone_token kw q =
     (\<exists>pre tok post. q = pre @ tok @ post \<and> upper tok = upper kw
        \<and> (pre = [] \<or> \<not> is_word (last pre)) \<and> (post = [] \<or> \<not> is_word (hd post)))"

text \<open>
  Strings made of the 26 letters, in either case.
\<close>

definition letters_only :: "string \<Rightarrow> bool" where
  "letters_only s = (\<forall>c\<in>set s. is_upper c \<or> is_lower c)"

text \<open>
  A database for the examples: one statement returns two rows, every other statement fails
  in SQLite.
\<close>

definition sample_db :: "int database" where
  "sample_db =
     \<lparr>connect_failure = None,
      run_statement = (\<lambda>q. if q = ''SELECT amt FROM fraud_data''
                            then Fetched [[(''amt'', 5)], [(''amt'', 7)]]
                            else Raised (Sqlite3_Error ''OperationalError''))\<rparr>"

text \<open>
  The state of an agent object after \<^verbatim>\<open>__init__\<close>.
\<close>

definition fresh_agent :: agent_state where
  "fresh_agent = \<lparr>tool_calls = [], db_trace = []\<rparr>"

text \<open>
  The specification's notion of a query that begins with the \<^verbatim>\<open>SELECT\<close> keyword: after
  the leading blanks, the first run of word characters is \<^verbatim>\<open>SELECT\<close> in any case.
\<close>

definition begins_with_select_keyword :: "string \<Rightarrow> bool" where
  "begins_with_select_keyword q = (upper (takeWhile is_word (lstrip q)) = ''SELECT'')"

text \<open>
  The ledger entry that a tool appends for a request.
\<close>

fun ledger_entry :: "tool_request \<Rightarrow> tool_call" where
  "ledger_entry (Vector_Query q) =
     \<lparr>tool_name = ''query_vector_db'', query = q, status = ''success''\<rparr>"
| "ledger_entry (Sql_Query q) =
     \<lparr>tool_name = ''query_sql'', query = q, status = ''success''\<rparr>"

text \<open>
  A knowledge base for the examples, with two documents; the relevance of a document is
  the length of its content.
\<close>

definition sample_kb :: "int knowledge_base" where
  "sample_kb =
     \<lparr>vectorstore = Some [\<lparr>page_content = ''Card testing fraud'', metadata = []\<rparr>,
                          \<lparr>page_content = ''Chargeback rules'', metadata = []\<rparr>],
      relevance = (\<lambda>q d. int (length (page_content d)))\<rparr>"

text \<open>
  Two runs for the examples.
\<close>

definition run_a :: agent_run where
  "run_a = \<lparr>requests = [Sql_Query ''SELECT amt FROM fraud_data'', Vector_Query ''card testing''],
            chunks = [''Two rows.''], outcome = Inr ''Two rows.''\<rparr>"

definition run_b :: agent_run where
  "run_b = \<lparr>requests = [Sql_Query ''DROP TABLE fraud_data'',
                         Sql_Query ''SELECT no_such_column FROM fraud_data''],
            chunks = [''No data.''], outcome = Inr ''No data.''\<rparr>"

section \<open>Properties\<close>

subsection \<open>Characters\<close>

lemma upper_lower_char: "upper_char (lower_char c) = upper_char c"
  by (auto simp add: upper_char_def lower_char_def is_upper_def is_lower_def Let_def)

lemma lower_upper_char: "lower_char (upper_char c) = lower_char c"
  by (auto simp add: upper_char_def lower_char_def is_upper_def is_lower_def Let_def)

lemma lower_eq_iff_upper_eq: "lower_char a = lower_char b \<longleftrightarrow> upper_char a = upper_char b"
  by (metis upper_lower_char lower_upper_char)

lemma space_not_word: "is_space c \<Longrightarrow> \<not> is_word c"
  by (auto simp add: is_space_def is_word_def is_upper_def is_lower_def is_digit_def Let_def)


lemma newline_not_word: "\<not> is_word (CHR 0x0A)"
  by (simp add: is_word_def is_upper_def is_lower_def is_digit_def)

lemma upper_eq_letter:
  "upper_char c = upper_char k \<Longrightarrow> is_upper k \<or> is_lower k \<Longrightarrow> is_upper c \<or> is_lower c"
  by (auto simp add: upper_char_def is_upper_def is_lower_def Let_def split: if_splits)

lemma letter_not_space: "is_upper c \<or> is_lower c \<Longrightarrow> \<not> is_space c"
  by (auto simp add: is_space_def is_upper_def is_lower_def Let_def)

lemma upper_eq_letters_only:
  "upper tok = upper kw \<Longrightarrow> letters_only kw \<Longrightarrow> letters_only tok"
proof (induction tok arbitrary: kw)
  case Nil
  then show ?case by (simp add: letters_only_def)
next
  case (Cons c tok)
  then obtain k ks where kw: "kw = k # ks" by (cases kw) (auto simp: upper_def)
  with Cons.prems have "upper_char c = upper_char k" "upper tok = upper ks"
    "is_upper k \<or> is_lower k" "letters_only ks"
    by (auto simp: upper_def letters_only_def)
  with Cons.IH [of ks] upper_eq_letter [of c k] show ?case
    by (auto simp: letters_only_def)
qed

subsection \<open>The pattern matches exactly the standalone tokens\<close>

lemma match_literal_iff:
  "match_literal kw s = Some r \<longleftrightarrow> (\<exists>tok. s = tok @ r \<and> upper tok = upper kw)"
proof (induction kw s rule: match_literal.induct)
  case (1 s)
  then show ?case by (auto simp: upper_def)
next
  case (2 k ks)
  then show ?case by (auto simp: upper_def)
next
  case (3 k ks c cs)
  show ?case
  proof (cases "lower_char k = lower_char c")
    case True
    then have u: "upper_char c = upper_char k" by (simp add: lower_eq_iff_upper_eq)
    show ?thesis
    proof
      assume "match_literal (k # ks) (c # cs) = Some r"
      with True 3 obtain tok where "cs = tok @ r" "upper tok = upper ks" by auto
      with u have "c # cs = (c # tok) @ r \<and> upper (c # tok) = upper (k # ks)"
        by (simp add: upper_def)
      then show "\<exists>tok. c # cs = tok @ r \<and> upper tok = upper (k # ks)" by blast
    next
      assume "\<exists>tok. c # cs = tok @ r \<and> upper tok = upper (k # ks)"
      then obtain tok where t: "c # cs = tok @ r" "upper tok = upper (k # ks)" by blast
      then obtain tok' where "tok = c # tok'" by (cases tok) (auto simp: upper_def)
      with t have "cs = tok' @ r \<and> upper tok' = upper ks" by (simp add: upper_def)
      with True 3 show "match_literal (k # ks) (c # cs) = Some r" by auto
    qed
  next
    case False
    then have u: "upper_char c \<noteq> upper_char k" by (simp add: lower_eq_iff_upper_eq)
    have "\<not> (\<exists>tok. c # cs = tok @ r \<and> upper tok = upper (k # ks))"
    proof
      assume "\<exists>tok. c # cs = tok @ r \<and> upper tok = upper (k # ks)"
      then obtain tok where t: "c # cs = tok @ r" "upper tok = upper (k # ks)" by blast
      then obtain tok' where "tok = c # tok'" by (cases tok) (auto simp: upper_def)
      with t u show False by (simp add: upper_def)
    qed
    with False show ?thesis by simp
  qed
qed

lemma match_end_iff: "match_end r \<longleftrightarrow> (r = [] \<or> \<not> is_word (hd r))"
  by (cases r) (auto simp: newline_not_word)

lemma match_rest_iff:
  "match_rest kw s \<longleftrightarrow>
     (\<exists>tok post. s = tok @ post \<and> upper tok = upper kw \<and> (post = [] \<or> \<not> is_word (hd post)))"
proof -
  have "match_rest kw s \<longleftrightarrow> (\<exists>r. match_literal kw s = Some r \<and> match_end r)"
    by (simp add: match_rest_def split: option.splits)
  then show ?thesis by (simp add: match_literal_iff match_end_iff) blast
qed

lemma re_search_from_iff:
  "re_search_from b kw s \<longleftrightarrow>
     (b \<and> match_rest kw s)
     \<or> (\<exists>pre c post. s = pre @ c # post \<and> \<not> is_word c \<and> match_rest kw post)"
proof (induction s arbitrary: b)
  case Nil
  then show ?case by simp
next
  case (Cons a s)
  have split: "(\<exists>pre c post. a # s = pre @ c # post \<and> \<not> is_word c \<and> match_rest kw post)
      \<longleftrightarrow> (\<not> is_word a \<and> match_rest kw s)
          \<or> (\<exists>pre c post. s = pre @ c # post \<and> \<not> is_word c \<and> match_rest kw post)"
    (is "?L \<longleftrightarrow> ?A \<or> ?B")
  proof
    assume ?L
    then obtain pre c post where h: "a # s = pre @ c # post" "\<not> is_word c" "match_rest kw post"
      by blast
    show "?A \<or> ?B"
    proof (cases pre)
      case Nil
      with h show ?thesis by simp
    next
      case (Cons p ps)
      with h have "s = ps @ c # post" by simp
      with h show ?thesis by blast
    qed
  next
    assume "?A \<or> ?B"
    then show ?L
    proof
      assume ?A
      then have "a # s = [] @ a # s \<and> \<not> is_word a \<and> match_rest kw s" by simp
      then show ?L by blast
    next
      assume ?B
      then obtain pre c post where "s = pre @ c # post" "\<not> is_word c" "match_rest kw post"
        by blast
      then have "a # s = (a # pre) @ c # post \<and> \<not> is_word c \<and> match_rest kw post" by simp
      then show ?L by blast
    qed
  qed
  show ?case
    unfolding re_search_from.simps Cons.IH [of False] split by blast
qed

lemma re_search_iff: "re_search kw s \<longleftrightarrow> standalone_token kw s"
proof
  assume "re_search kw s"
  then consider (start) "match_rest kw s"
    | (later) pre c post where "s = pre @ c # post" "\<not> is_word c" "match_rest kw post"
    unfolding re_search_def re_search_from_iff by blast
  then show "standalone_token kw s"
  proof cases
    case start
    then obtain tok post where "s = [] @ tok @ post" "upper tok = upper kw"
      "post = [] \<or> \<not> is_word (hd post)" unfolding match_rest_iff by auto
    then show ?thesis unfolding standalone_token_def by blast
  next
    case later
    then obtain tok post' where "post = tok @ post'" "upper tok = upper kw"
      "post' = [] \<or> \<not> is_word (hd post')" unfolding match_rest_iff by auto
    with later have "s = (pre @ [c]) @ tok @ post' \<and> upper tok = upper kw
       \<and> (pre @ [c] = [] \<or> \<not> is_word (last (pre @ [c])))
       \<and> (post' = [] \<or> \<not> is_word (hd post'))" by simp
    then show ?thesis unfolding standalone_token_def by blast
  qed
next
  assume "standalone_token kw s"
  then obtain pre tok post where h: "s = pre @ tok @ post" "upper tok = upper kw"
    "pre = [] \<or> \<not> is_word (last pre)" "post = [] \<or> \<not> is_word (hd post)"
    unfolding standalone_token_def by blast
  then have m: "match_rest kw (tok @ post)" unfolding match_rest_iff by blast
  show "re_search kw s"
  proof (cases "pre = []")
    case True
    with h m show ?thesis unfolding re_search_def re_search_from_iff by simp
  next
    case False
    then have "pre = butlast pre @ [last pre]" by simp
    with h have "s = butlast pre @ last pre # (tok @ post)" by (metis append.assoc append_Cons append_Nil)
    with h False m show ?thesis unfolding re_search_def re_search_from_iff by blast
  qed
qed

subsection \<open>Stripping the query keeps its standalone tokens\<close>

lemma dropWhile_keeps_token:
  assumes "tok \<noteq> []" and "\<not> P (hd tok)"
  shows "dropWhile P (pre @ tok @ post) = dropWhile P pre @ tok @ post"
proof -
  from assms have "dropWhile P (tok @ post) = tok @ post" by (cases tok) auto
  then show ?thesis by (simp add: dropWhile_append)
qed

lemma strip_around_token:
  assumes "tok \<noteq> []" and "\<not> is_space (hd tok)" and "\<not> is_space (last tok)"
  shows "strip (pre @ tok @ post) = lstrip pre @ tok @ rstrip post"
proof -
  have l: "lstrip (pre @ tok @ post) = lstrip pre @ tok @ post"
    unfolding lstrip_def using assms by (simp add: dropWhile_keeps_token)
  have "rev tok \<noteq> []" "\<not> is_space (hd (rev tok))" using assms by (simp_all add: hd_rev)
  then have "dropWhile is_space (rev post @ rev tok @ rev (lstrip pre))
      = dropWhile is_space (rev post) @ rev tok @ rev (lstrip pre)"
    by (rule dropWhile_keeps_token)
  then have "rstrip (lstrip pre @ tok @ post) = lstrip pre @ tok @ rstrip post"
    unfolding rstrip_def by simp
  with l show ?thesis by (simp add: strip_def)
qed

lemma last_dropWhile: "dropWhile P xs \<noteq> [] \<Longrightarrow> last (dropWhile P xs) = last xs"
  by (induction xs) auto

lemma lstrip_last: "lstrip pre = [] \<or> last (lstrip pre) = last pre"
  unfolding lstrip_def using last_dropWhile by blast

lemma rstrip_hd: "rstrip post = [] \<or> hd (rstrip post) = hd post"
proof (cases "rstrip post = []")
  case True
  then show ?thesis by simp
next
  case False
  then have ne: "dropWhile is_space (rev post) \<noteq> []" by (simp add: rstrip_def)
  then have "post \<noteq> []" by auto
  have "hd (rstrip post) = last (dropWhile is_space (rev post))"
    unfolding rstrip_def using ne by (simp add: hd_rev)
  also have "\<dots> = last (rev post)" using ne by (rule last_dropWhile)
  also have "\<dots> = hd post" using \<open>post \<noteq> []\<close> by (simp add: last_rev)
  finally show ?thesis by simp
qed

lemma strip_decomposition:
  "\<exists>ws1 ws2. q = ws1 @ strip q @ ws2 \<and> (\<forall>c\<in>set ws1. is_space c) \<and> (\<forall>c\<in>set ws2. is_space c)"
proof -
  let ?l = "lstrip q"
  have 1: "q = takeWhile is_space q @ ?l" by (simp add: lstrip_def)
  have "rev (dropWhile is_space (rev ?l)) @ rev (takeWhile is_space (rev ?l))
      = rev (takeWhile is_space (rev ?l) @ dropWhile is_space (rev ?l))"
    by (simp only: rev_append)
  also have "\<dots> = ?l" by (simp only: takeWhile_dropWhile_id rev_rev_ident)
  finally have 2: "?l = strip q @ rev (takeWhile is_space (rev ?l))"
    by (simp add: strip_def rstrip_def)
  have 3: "\<forall>c\<in>set (takeWhile is_space q). is_space c" by (auto dest: set_takeWhileD)
  have 4: "\<forall>c\<in>set (rev (takeWhile is_space (rev ?l))). is_space c"
    by (auto dest: set_takeWhileD)
  from 1 2 have "q = takeWhile is_space q @ strip q @ rev (takeWhile is_space (rev ?l))"
    by simp
  with 3 4 show ?thesis by blast
qed

lemma standalone_token_strip:
  assumes "kw \<noteq> []" and "letters_only kw"
  shows "standalone_token kw (strip q) \<longleftrightarrow> standalone_token kw q"
proof
  assume "standalone_token kw (strip q)"
  then obtain pre tok post where h: "strip q = pre @ tok @ post" "upper tok = upper kw"
    "pre = [] \<or> \<not> is_word (last pre)" "post = [] \<or> \<not> is_word (hd post)"
    unfolding standalone_token_def by blast
  obtain ws1 ws2 where w: "q = ws1 @ strip q @ ws2" "\<forall>c\<in>set ws1. is_space c"
    "\<forall>c\<in>set ws2. is_space c" using strip_decomposition by blast
  have a: "q = (ws1 @ pre) @ tok @ (post @ ws2)" using w(1) h(1) by simp
  have b: "ws1 @ pre = [] \<or> \<not> is_word (last (ws1 @ pre))"
  proof (cases "pre = []")
    case True
    then show ?thesis using w(2) space_not_word by (cases "ws1 = []") auto
  next
    case False
    then show ?thesis using h(3) by simp
  qed
  have c: "post @ ws2 = [] \<or> \<not> is_word (hd (post @ ws2))"
  proof (cases "post = []")
    case True
    then show ?thesis using w(3) space_not_word by (cases ws2) auto
  next
    case False
    then show ?thesis using h(4) by simp
  qed
  from a b c h(2) show "standalone_token kw q" unfolding standalone_token_def by blast
next
  assume "standalone_token kw q"
  then obtain pre tok post where h: "q = pre @ tok @ post" "upper tok = upper kw"
    "pre = [] \<or> \<not> is_word (last pre)" "post = [] \<or> \<not> is_word (hd post)"
    unfolding standalone_token_def by blast
  from h(2) assms(1) have ne: "tok \<noteq> []" by (auto simp: upper_def)
  from h(2) assms(2) have "letters_only tok" by (rule upper_eq_letters_only)
  with ne have "\<not> is_space (hd tok)" "\<not> is_space (last tok)"
    using letter_not_space by (auto simp: letters_only_def)
  with ne have s: "strip q = lstrip pre @ tok @ rstrip post"
    unfolding h(1) by (rule strip_around_token)
  have "lstrip pre = [] \<or> \<not> is_word (last (lstrip pre))"
    using lstrip_last [of pre] h(3) by (auto simp: lstrip_def)
  moreover have "rstrip post = [] \<or> \<not> is_word (hd (rstrip post))"
    using rstrip_hd [of post] h(4) by (auto simp: rstrip_def)
  ultimately show "standalone_token kw (strip q)"
    using s h(2) unfolding standalone_token_def by blast
qed

subsection \<open>The keyword scan of the SQL tool\<close>

lemma forbidden_keywords_letters:
  "k \<in> set forbidden_keywords \<Longrightarrow> k \<noteq> [] \<and> letters_only k"
  by (auto simp add: forbidden_keywords_def letters_only_def is_upper_def is_lower_def)


lemma first_forbidden_None:
  "first_forbidden ks q = None \<longleftrightarrow> (\<forall>k\<in>set ks. \<not> re_search k q)"
  by (induction ks) auto

lemma forbidden_standalone_iff:
  "k \<in> set forbidden_keywords \<Longrightarrow> re_search k (strip q) \<longleftrightarrow> standalone_token k q"
  using forbidden_keywords_letters [of k] by (simp add: re_search_iff standalone_token_strip)

lemma query_sql_rejected:
  "first_forbidden forbidden_keywords (strip q) = Some k
     \<Longrightarrow> query_sql db st q = (Inl (ValueError (disallowed_message k)), st)"
  by (simp add: query_sql_def)

lemma query_sql_passed:
  "first_forbidden forbidden_keywords (strip q) = None
     \<Longrightarrow> query_sql db st q =
         (case execute_read_query db (db_trace st) q of
            (Inl e, trace) \<Rightarrow> (Inl e, st\<lparr>db_trace := trace\<rparr>)
          | (Inr result, trace) \<Rightarrow>
              (Inr result,
               st\<lparr>db_trace := trace,
                  tool_calls := tool_calls st
                    @ [\<lparr>tool_name = ''query_sql'', query = q, status = ''success''\<rparr>]\<rparr>))"
  by (simp add: query_sql_def)





text \<open>
  C2. For every query in which no forbidden keyword appears as a standalone token (a keyword
  may appear inside a longer identifier), the keyword scan finds nothing and
  \<^verbatim>\<open>query_sql\<close> hands the query to the store: its result and its database trace are those
  of \<^verbatim>\<open>execute_read_query\<close>.
\<close>

theorem embedded_keyword_passes:
  assumes "\<forall>k\<in>set forbidden_keywords. \<not> standalone_token k q"
  shows "first_forbidden forbidden_keywords (strip q) = None
    \<and> fst (query_sql db st q) = fst (execute_read_query db (db_trace st) q)
    \<and> db_trace (snd (query_sql db st q)) = snd (execute_read_query db (db_trace st) q)"
proof -
  from assms have "\<forall>k\<in>set forbidden_keywords. \<not> re_search k (strip q)"
    by (simp add: forbidden_standalone_iff)
  then have n: "first_forbidden forbidden_keywords (strip q) = None"
    by (simp add: first_forbidden_None)
  then show ?thesis
    by (simp add: query_sql_passed split: prod.splits sum.splits)
qed

lemma createdBy_example:
  "first_forbidden forbidden_keywords (strip ''SELECT createdBy FROM fraud_data'') = None"
  by code_simp

text \<open>
  The example of C2: \<^verbatim>\<open>createdBy\<close> holds \<^verbatim>\<open>CREATE\<close>, and the query passes the scan and
  reaches the database.
\<close>

theorem embedded_keyword_passes_witness:
  "\<not> (\<exists>k\<in>set forbidden_keywords. standalone_token k ''SELECT createdBy FROM fraud_data'')
   \<and> first_forbidden forbidden_keywords (strip ''SELECT createdBy FROM fraud_data'') = None
   \<and> query_sql sample_db fresh_agent ''SELECT createdBy FROM fraud_data''
       = (Inr [], \<lparr>tool_calls = [\<lparr>tool_name = ''query_sql'',
                                  query = ''SELECT createdBy FROM fraud_data'',
                                  status = ''success''\<rparr>],
                  db_trace = [Connect, Execute ''SELECT createdBy FROM fraud_data'', Close]\<rparr>)"
proof -
  have h: "\<forall>k\<in>set forbidden_keywords. \<not> standalone_token k ''SELECT createdBy FROM fraud_data''"
    using createdBy_example by (simp add: first_forbidden_None forbidden_standalone_iff)
  have s: "startswith (upper (strip ''SELECT createdBy FROM fraud_data'')) ''SELECT''"
    by code_simp
  have "execute_read_query sample_db [] ''SELECT createdBy FROM fraud_data''
      = (Inr [], [Connect, Execute ''SELECT createdBy FROM fraud_data'', Close])"
    using s by (simp add: execute_read_query_def sample_db_def)
  with embedded_keyword_passes [OF h, of sample_db fresh_agent] h show ?thesis
    by (simp add: query_sql_passed fresh_agent_def)
qed

subsection \<open>The tabular store\<close>






text \<open>
  C9. The check of the store compares characters: every query whose stripped, upper-cased
  text begins with the six characters \<^verbatim>\<open>SELECT\<close> is, once the connection is open, executed
  as a statement, and the result of the call is what the database makes of it.
\<close>

theorem store_gate_is_prefix_check:
  assumes "startswith (upper (strip q)) ''SELECT''" and "connect_failure db = None"
  shows "execute_read_query db trace q =
     (case run_statement db q of
        Fetched rows \<Rightarrow> Inr (map dict_of_row rows)
      | Raised e \<Rightarrow> if is_sqlite3_error e then Inr [] else Inl e,
      trace @ [Connect, Execute q, Close])"
  using assms by (simp add: execute_read_query_def split: cursor_outcome.splits)

text \<open>
  An instance of C9: a query whose first word is \<^verbatim>\<open>SELECTION\<close> does not begin with the
  \<^verbatim>\<open>SELECT\<close> keyword and is executed all the same.
\<close>

theorem store_gate_is_prefix_check_witness:
  "startswith (upper (strip ''SELECTION FROM fraud_data'')) ''SELECT''
   \<and> \<not> begins_with_select_keyword ''SELECTION FROM fraud_data''
   \<and> connect_failure sample_db = None
   \<and> execute_read_query sample_db [] ''SELECTION FROM fraud_data''
       = (Inr [], [Connect, Execute ''SELECTION FROM fraud_data'', Close])"
proof -
  have a: "startswith (upper (strip ''SELECTION FROM fraud_data'')) ''SELECT''" by code_simp
  have b: "\<not> begins_with_select_keyword ''SELECTION FROM fraud_data''" by code_simp
  have c: "connect_failure sample_db = None" by (simp add: sample_db_def)
  from store_gate_is_prefix_check [OF a c, of "[]"] a b c show ?thesis
    by (simp add: sample_db_def)
qed

text \<open>
  C4. For every query that reaches the database (the connection is open and the text begins
  with \<^verbatim>\<open>SELECT\<close>) and on which SQLite raises a \<^verbatim>\<open>sqlite3.Error\<close>, or which matches no
  row, \<^verbatim>\<open>execute_read_query\<close> returns the empty list. The value returned is a list in
  every case, by the type of the result.
\<close>

theorem execution_failure_gives_empty:
  assumes "connect_failure db = None" and "startswith (upper (strip q)) ''SELECT''"
    and "(\<exists>e. run_statement db q = Raised e \<and> is_sqlite3_error e)
         \<or> run_statement db q = Fetched []"
  shows "execute_read_query db trace q = (Inr [], trace @ [Connect, Execute q, Close])"
  using assms by (auto simp add: execute_read_query_def)

text \<open>
  An instance of C4: a statement that names a missing column.
\<close>

theorem execution_failure_gives_empty_witness:
  "connect_failure sample_db = None
   \<and> startswith (upper (strip ''SELECT no_such_column FROM fraud_data'')) ''SELECT''
   \<and> run_statement sample_db ''SELECT no_such_column FROM fraud_data''
       = Raised (Sqlite3_Error ''OperationalError'')
   \<and> execute_read_query sample_db [] ''SELECT no_such_column FROM fraud_data''
       = (Inr [], [Connect, Execute ''SELECT no_such_column FROM fraud_data'', Close])"
proof -
  have a: "connect_failure sample_db = None" by (simp add: sample_db_def)
  have b: "startswith (upper (strip ''SELECT no_such_column FROM fraud_data'')) ''SELECT''"
    by code_simp
  have c: "run_statement sample_db ''SELECT no_such_column FROM fraud_data''
       = Raised (Sqlite3_Error ''OperationalError'')" by (simp add: sample_db_def)
  then have d: "(\<exists>e. run_statement sample_db ''SELECT no_such_column FROM fraud_data'' = Raised e
           \<and> is_sqlite3_error e)
     \<or> run_statement sample_db ''SELECT no_such_column FROM fraud_data'' = Fetched []"
    by simp
  from execution_failure_gives_empty [OF a b d, of "[]"] a b c show ?thesis by simp
qed

lemma open_connections_append:
  "open_connections (xs @ ys) = open_connections xs + open_connections ys"
  by (induction xs rule: open_connections.induct) simp_all

text \<open>
  C8. After every call of \<^verbatim>\<open>execute_read_query\<close> as many connections are open as before
  the call. The call adds to the trace its own \<open>Connect\<close>, the statement if the query
  passed the check, and the \<open>Close\<close> of \<^verbatim>\<open>finally\<close>, whether the statement returned rows,
  raised, or the query was rejected; when \<^verbatim>\<open>sqlite3.connect\<close> raises there is no
  connection and the trace is unchanged.
\<close>

theorem connection_released_on_every_path:
  "open_connections (snd (execute_read_query db trace q)) = open_connections trace
   \<and> snd (execute_read_query db trace q) =
       trace @ (case connect_failure db of
                  Some e \<Rightarrow> []
                | None \<Rightarrow> if startswith (upper (strip q)) ''SELECT''
                          then [Connect, Execute q, Close] else [Connect, Close])"
proof -
  have t: "snd (execute_read_query db trace q) =
       trace @ (case connect_failure db of
                  Some e \<Rightarrow> []
                | None \<Rightarrow> if startswith (upper (strip q)) ''SELECT''
                          then [Connect, Execute q, Close] else [Connect, Close])"
    by (simp add: execute_read_query_def split: option.splits cursor_outcome.splits)
  then show ?thesis by (simp add: open_connections_append split: option.splits)
qed

text \<open>
  Instances of C8 on the three exit paths: rows returned, a failure turned into the empty
  list, and the rejection.
\<close>

theorem connection_released_on_every_path_witness:
  "snd (execute_read_query sample_db [] ''SELECT amt FROM fraud_data'')
     = [Connect, Execute ''SELECT amt FROM fraud_data'', Close]
   \<and> snd (execute_read_query sample_db [] ''SELECT no_such_column FROM fraud_data'')
     = [Connect, Execute ''SELECT no_such_column FROM fraud_data'', Close]
   \<and> snd (execute_read_query sample_db [] ''PRAGMA table_info(fraud_data)'') = [Connect, Close]
   \<and> open_connections (snd (execute_read_query sample_db [] ''PRAGMA table_info(fraud_data)''))
       = 0"
proof -
  have a: "startswith (upper (strip ''SELECT amt FROM fraud_data'')) ''SELECT''" by code_simp
  have b: "startswith (upper (strip ''SELECT no_such_column FROM fraud_data'')) ''SELECT''"
    by code_simp
  have c: "\<not> startswith (upper (strip ''PRAGMA table_info(fraud_data)'')) ''SELECT''"
    by code_simp
  have d: "connect_failure sample_db = None" by (simp add: sample_db_def)
  from connection_released_on_every_path [of sample_db "[]" "''SELECT amt FROM fraud_data''"]
       connection_released_on_every_path
         [of sample_db "[]" "''SELECT no_such_column FROM fraud_data''"]
       connection_released_on_every_path [of sample_db "[]" "''PRAGMA table_info(fraud_data)''"]
       a b c d
  show ?thesis by simp
qed

subsection \<open>The knowledge retriever\<close>

text \<open>
  C5. With no PDF file the manager builds what its comment and its log call an empty index,
  and that index holds the placeholder document. \<^verbatim>\<open>retrieve\<close> on it, for any query and
  any \<^verbatim>\<open>fetch_k\<close> of at least one, returns the placeholder with its score, not the empty
  sequence. \<^verbatim>\<open>retrieve\<close> on a manager whose \<^verbatim>\<open>vectorstore\<close> attribute was never set
  raises \<^verbatim>\<open>AttributeError\<close>.
\<close>

theorem placeholder_document_retrieved:
  "init_knowledge_base None chunk_pdf split [] = Inr (Some [dummy_doc])
   \<and> retrieve \<lparr>vectorstore = Some [dummy_doc], relevance = rel\<rparr> q top_k (Suc n)
       = Inr [(dummy_doc, rel q dummy_doc)]
   \<and> retrieve \<lparr>vectorstore = None, relevance = rel\<rparr> q top_k fetch_k
       = Inl (AttributeError ''vectorstore'')"
  by (simp add: init_knowledge_base_def initialize_from_pdfs_def retrieve_def
      similarity_search_with_relevance_scores_def)

text \<open>
  C10. The result of \<^verbatim>\<open>retrieve\<close> does not depend on \<^verbatim>\<open>top_k\<close>: for any two values of
  \<^verbatim>\<open>top_k\<close> it is the result of the similarity search for \<^verbatim>\<open>k=fetch_k\<close>, which holds
  \<^verbatim>\<open>fetch_k\<close> documents, or all the documents of the index when there are fewer.
\<close>

theorem retrieve_ignores_top_k:
  assumes "vectorstore kb = Some docs"
  shows "retrieve kb q top_k fetch_k = retrieve kb q top_k' fetch_k
    \<and> retrieve kb q top_k fetch_k
        = Inr (similarity_search_with_relevance_scores (relevance kb) docs q fetch_k)
    \<and> length (similarity_search_with_relevance_scores (relevance kb) docs q fetch_k)
        = min fetch_k (length docs)"
  using assms by (simp add: retrieve_def similarity_search_with_relevance_scores_def)

text \<open>
  An instance of C10: with \<^verbatim>\<open>top_k = 1\<close> the result still holds two documents.
\<close>

theorem retrieve_ignores_top_k_witness:
  "vectorstore sample_kb = Some [\<lparr>page_content = ''Card testing fraud'', metadata = []\<rparr>,
                                \<lparr>page_content = ''Chargeback rules'', metadata = []\<rparr>]
   \<and> retrieve sample_kb ''fraud'' 1 20 = retrieve sample_kb ''fraud'' 5 20
   \<and> retrieve sample_kb ''fraud'' 1 20
       = Inr [(\<lparr>page_content = ''Card testing fraud'', metadata = []\<rparr>, 18),
              (\<lparr>page_content = ''Chargeback rules'', metadata = []\<rparr>, 16)]"
proof -
  have a: "vectorstore sample_kb = Some [\<lparr>page_content = ''Card testing fraud'', metadata = []\<rparr>,
                                \<lparr>page_content = ''Chargeback rules'', metadata = []\<rparr>]"
    by (simp add: sample_kb_def)
  have "similarity_search_with_relevance_scores (relevance sample_kb)
          [\<lparr>page_content = ''Card testing fraud'', metadata = []\<rparr>,
           \<lparr>page_content = ''Chargeback rules'', metadata = []\<rparr>] ''fraud'' 20
       = [(\<lparr>page_content = ''Card testing fraud'', metadata = []\<rparr>, 18),
              (\<lparr>page_content = ''Chargeback rules'', metadata = []\<rparr>, 16)]"
    by (simp add: similarity_search_with_relevance_scores_def sample_kb_def)
  moreover from retrieve_ignores_top_k [OF a, of "''fraud''" 1 20 5]
  have "retrieve sample_kb ''fraud'' 1 20 = retrieve sample_kb ''fraud'' 5 20"
    and "retrieve sample_kb ''fraud'' 1 20
       = Inr (similarity_search_with_relevance_scores (relevance sample_kb)
          [\<lparr>page_content = ''Card testing fraud'', metadata = []\<rparr>,
           \<lparr>page_content = ''Chargeback rules'', metadata = []\<rparr>] ''fraud'' 20)"
    by blast+
  ultimately show ?thesis using a by (simp only:)
qed

subsection \<open>The ledger\<close>

text \<open>
  C7, as stated, fails: the store raises on the \<^verbatim>\<open>PRAGMA\<close> statement, \<^verbatim>\<open>query_sql\<close>
  raises the exception again, and the ledger has no entry for the call.
\<close>

theorem failed_sql_call_not_recorded:
  "fst (query_sql sample_db fresh_agent ''PRAGMA table_info(fraud_data)'')
     = Inl (ValueError only_select_message)
   \<and> tool_calls (snd (query_sql sample_db fresh_agent ''PRAGMA table_info(fraud_data)'')) = []"
proof -
  have a: "\<not> startswith (upper (strip ''PRAGMA table_info(fraud_data)'')) ''SELECT''"
    by code_simp
  have b: "first_forbidden forbidden_keywords (strip ''PRAGMA table_info(fraud_data)'') = None"
    by code_simp
  have "execute_read_query sample_db [] ''PRAGMA table_info(fraud_data)''
       = (Inl (ValueError only_select_message), [Connect, Close])"
    using a by (simp add: execute_read_query_def sample_db_def)
  then show ?thesis by (simp add: query_sql_passed [OF b] fresh_agent_def)
qed

text \<open>
  C7, amended. A call of \<^verbatim>\<open>query_sql\<close> that returns a result appends one entry with
  status \<^verbatim>\<open>success\<close> to the ledger; a call that raises, in the keyword scan or in the
  store, leaves the ledger as it was.
\<close>

theorem sql_ledger_entry_only_on_return:
  "(\<forall>result. fst (query_sql db st q) = Inr result \<longrightarrow>
       tool_calls (snd (query_sql db st q))
         = tool_calls st @ [\<lparr>tool_name = ''query_sql'', query = q, status = ''success''\<rparr>])
   \<and> (\<forall>e. fst (query_sql db st q) = Inl e \<longrightarrow>
       tool_calls (snd (query_sql db st q)) = tool_calls st)"
  by (simp add: query_sql_def split: option.splits prod.splits sum.splits)

text \<open>
  Instances of C7, amended: a statement on which SQLite fails is recorded as a success,
  since the store returns the empty list for it; a rejected statement is not recorded.
\<close>

theorem sql_ledger_entry_only_on_return_witness:
  "fst (query_sql sample_db fresh_agent ''SELECT no_such_column FROM fraud_data'') = Inr []
   \<and> tool_calls (snd (query_sql sample_db fresh_agent ''SELECT no_such_column FROM fraud_data''))
       = [\<lparr>tool_name = ''query_sql'', query = ''SELECT no_such_column FROM fraud_data'',
           status = ''success''\<rparr>]
   \<and> fst (query_sql sample_db fresh_agent ''DELETE FROM fraud_data'')
       = Inl (ValueError (disallowed_message ''DELETE''))
   \<and> tool_calls (snd (query_sql sample_db fresh_agent ''DELETE FROM fraud_data'')) = []"
proof -
  have p: "first_forbidden forbidden_keywords (strip ''SELECT no_such_column FROM fraud_data'')
       = None" by code_simp
  have s: "startswith (upper (strip ''SELECT no_such_column FROM fraud_data'')) ''SELECT''"
    by code_simp
  have "execute_read_query sample_db [] ''SELECT no_such_column FROM fraud_data''
       = (Inr [], [Connect, Execute ''SELECT no_such_column FROM fraud_data'', Close])"
    using s by (simp add: execute_read_query_def sample_db_def)
  then have a: "fst (query_sql sample_db fresh_agent ''SELECT no_such_column FROM fraud_data'')
       = Inr []"
    by (simp add: query_sql_passed [OF p] fresh_agent_def)
  have "first_forbidden forbidden_keywords (strip ''DELETE FROM fraud_data'') = Some ''DELETE''"
    by code_simp
  then have b: "fst (query_sql sample_db fresh_agent ''DELETE FROM fraud_data'')
       = Inl (ValueError (disallowed_message ''DELETE''))"
    by (simp add: query_sql_rejected)
  have c: "tool_calls fresh_agent = []" by (simp add: fresh_agent_def)
  from sql_ledger_entry_only_on_return
         [of sample_db fresh_agent "''SELECT no_such_column FROM fraud_data''"]
       sql_ledger_entry_only_on_return [of sample_db fresh_agent "''DELETE FROM fraud_data''"]
       a b c
  show ?thesis by simp
qed

lemma call_tool_ledger:
  "tool_calls (call_tool db kb st r) = tool_calls st
   \<or> tool_calls (call_tool db kb st r) = tool_calls st @ [ledger_entry r]"
  by (cases r)
     (auto simp add: query_sql_def query_vector_db_def split: option.splits prod.splits sum.splits)

lemma run_tools_ledger:
  "\<exists>new. tool_calls (run_tools db kb st rs) = tool_calls st @ new
          \<and> set new \<subseteq> ledger_entry ` set rs"
proof (induction rs arbitrary: st)
  case Nil
  then show ?case by simp
next
  case (Cons r rs)
  obtain new where n: "tool_calls (run_tools db kb (call_tool db kb st r) rs)
      = tool_calls (call_tool db kb st r) @ new" "set new \<subseteq> ledger_entry ` set rs"
    using Cons.IH by blast
  from call_tool_ledger [of db kb st r] show ?case
  proof
    assume "tool_calls (call_tool db kb st r) = tool_calls st"
    with n have "tool_calls (run_tools db kb st (r # rs)) = tool_calls st @ new
        \<and> set new \<subseteq> ledger_entry ` set (r # rs)" by auto
    then show ?thesis by blast
  next
    assume "tool_calls (call_tool db kb st r) = tool_calls st @ [ledger_entry r]"
    with n have "tool_calls (run_tools db kb st (r # rs)) = tool_calls st @ (ledger_entry r # new)
        \<and> set (ledger_entry r # new) \<subseteq> ledger_entry ` set (r # rs)" by auto
    then show ?thesis by blast
  qed
qed

lemma run_tools_from_empty:
  "tool_calls st = [] \<Longrightarrow> set (tool_calls (run_tools db kb st rs)) \<subseteq> ledger_entry ` set rs"
  using run_tools_ledger [of db kb st rs] by auto

text \<open>
  C6. Both \<^verbatim>\<open>aeval\<close> and \<^verbatim>\<open>ainvoke\<close> begin by emptying the ledger: whatever ledger an
  earlier run has left in the agent, the run behaves as from an empty ledger, every entry
  of its ledger is the entry of one of its own requests, and the ledger that \<^verbatim>\<open>aeval\<close>
  returns is that ledger.
\<close>

theorem ledger_reset_every_run:
  "aeval db kb (st\<lparr>tool_calls := ledger\<rparr>) run = aeval db kb (st\<lparr>tool_calls := []\<rparr>) run
   \<and> ainvoke db kb (st\<lparr>tool_calls := ledger\<rparr>) run = ainvoke db kb (st\<lparr>tool_calls := []\<rparr>) run
   \<and> set (tool_calls (snd (aeval db kb (st\<lparr>tool_calls := ledger\<rparr>) run)))
        \<subseteq> ledger_entry ` set (requests run)
   \<and> set (tool_calls (snd (ainvoke db kb (st\<lparr>tool_calls := ledger\<rparr>) run)))
        \<subseteq> ledger_entry ` set (requests run)
   \<and> (\<forall>final_msg returned.
         fst (aeval db kb (st\<lparr>tool_calls := ledger\<rparr>) run) = Inr (final_msg, returned)
         \<longrightarrow> returned = tool_calls (snd (aeval db kb (st\<lparr>tool_calls := ledger\<rparr>) run)))"
  by (auto simp add: aeval_def ainvoke_def Let_def split: sum.splits
        dest: run_tools_from_empty [THEN subsetD, rotated])

lemma run_a_result:
  "fst (aeval sample_db sample_kb fresh_agent run_a)
     = Inr (''Two rows.'', [ledger_entry (Sql_Query ''SELECT amt FROM fraud_data''),
                            ledger_entry (Vector_Query ''card testing'')])"
  by code_simp

lemma run_b_result:
  "fst (aeval sample_db sample_kb
          ((snd (aeval sample_db sample_kb fresh_agent run_a))\<lparr>tool_calls := []\<rparr>) run_b)
     = Inr (''No data.'', [ledger_entry (Sql_Query ''SELECT no_such_column FROM fraud_data'')])"
  by code_simp

text \<open>
  An instance of C6: run A records two calls; run B, started on the state that A has left,
  ends with the one entry of its own successful call.
\<close>

theorem ledger_reset_every_run_witness:
  "fst (aeval sample_db sample_kb fresh_agent run_a)
     = Inr (''Two rows.'', [ledger_entry (Sql_Query ''SELECT amt FROM fraud_data''),
                            ledger_entry (Vector_Query ''card testing'')])
   \<and> fst (aeval sample_db sample_kb (snd (aeval sample_db sample_kb fresh_agent run_a)) run_b)
     = Inr (''No data.'', [ledger_entry (Sql_Query ''SELECT no_such_column FROM fraud_data'')])"
proof -
  let ?after_a = "snd (aeval sample_db sample_kb fresh_agent run_a)"
  have "?after_a\<lparr>tool_calls := tool_calls ?after_a\<rparr> = ?after_a" by simp
  with ledger_reset_every_run [where db = sample_db and kb = sample_kb and st = ?after_a
         and ledger = "tool_calls ?after_a" and run = run_b]
  have "aeval sample_db sample_kb ?after_a run_b
      = aeval sample_db sample_kb (?after_a\<lparr>tool_calls := []\<rparr>) run_b" by simp
  with run_a_result run_b_result show ?thesis by simp
qed

end
